theory Spec2Isabelle
  imports Complex_Main "HOL-Library.Sublist" "HOL-Library.AList"
begin

section \<open>Values and control flow of the Python program\<close>

text \<open>
  A decoded JSON body, as \<^verbatim>\<open>json.load\<close> returns it. A \<^verbatim>\<open>dict\<close> is an association
  list in insertion order (its keys are distinct; a lookup reads the first binding).
  Strings are byte strings: a character outside ASCII is its UTF-8 bytes.
  \<open>JNum\<close> holds the integers; fractional numbers do not occur in the fields the
  program reads and are left out.
\<close>

datatype json =
    JNull
  | JBool bool
  | JNum int
  | JStr string
  | JArr "json list"
  | JObj "(string \<times> json) list"

text \<open>
  The exceptions the program can meet outside \<^verbatim>\<open>get\<close>'s own handlers. All three derive
  from \<^verbatim>\<open>Exception\<close>. \<^verbatim>\<open>sys.exit(n)\<close> raises \<^verbatim>\<open>SystemExit\<close>, which does not derive
  from \<^verbatim>\<open>Exception\<close>: it is the separate outcome \<open>Exit n\<close>, which no
  \<^verbatim>\<open>except Exception\<close> clause catches.
\<close>

datatype pyexn = KeyError string | TypeError | AttributeError

datatype 'a result = Return 'a | Raise pyexn | Exit int

text \<open>\<^verbatim>\<open>obj[key]\<close> for a string key: only a dict can be subscripted by a string.\<close>

fun subscript :: "json \<Rightarrow> string \<Rightarrow> pyexn + json" where
  "subscript (JObj kvs) k = (case map_of kvs k of None \<Rightarrow> Inl (KeyError k) | Some v \<Rightarrow> Inr v)"
| "subscript _ k = Inl TypeError"

text \<open>Truth value of an object, as \<^verbatim>\<open>while\<close> and \<^verbatim>\<open>if\<close> test it.\<close>

fun truthy :: "json \<Rightarrow> bool" where
  "truthy JNull = False"
| "truthy (JBool b) = b"
| "truthy (JNum n) = (n \<noteq> 0)"
| "truthy (JStr s) = (s \<noteq> [])"
| "truthy (JArr xs) = (xs \<noteq> [])"
| "truthy (JObj kvs) = (kvs \<noteq> [])"

text \<open>Iteration: a list yields its elements, a dict its keys, a string its characters.\<close>

fun iter :: "json \<Rightarrow> pyexn + json list" where
  "iter (JArr xs) = Inr xs"
| "iter (JObj kvs) = Inr (map (\<lambda>kv. JStr (fst kv)) kvs)"
| "iter (JStr s) = Inr (map (\<lambda>c. JStr [c]) s)"
| "iter _ = Inl TypeError"

text \<open>
  \<^verbatim>\<open>a += b\<close>: a list is extended by any iterable, strings are concatenated, integers
  (and booleans, which are integers) are added; every other pair is a \<^verbatim>\<open>TypeError\<close>.
\<close>

fun iadd :: "json \<Rightarrow> json \<Rightarrow> pyexn + json" where
  "iadd (JArr xs) y = (case iter y of Inl e \<Rightarrow> Inl e | Inr ys \<Rightarrow> Inr (JArr (xs @ ys)))"
| "iadd (JStr s) (JStr t) = Inr (JStr (s @ t))"
| "iadd (JNum a) (JNum b) = Inr (JNum (a + b))"
| "iadd (JNum a) (JBool b) = Inr (JNum (a + of_bool b))"
| "iadd (JBool a) (JNum b) = Inr (JNum (of_bool a + b))"
| "iadd (JBool a) (JBool b) = Inr (JNum (of_bool a + of_bool b))"
| "iadd _ _ = Inl TypeError"

text \<open>\<^verbatim>\<open>len(x)\<close>.\<close>

fun len :: "json \<Rightarrow> pyexn + int" where
  "len (JArr xs) = Inr (int (length xs))"
| "len (JObj kvs) = Inr (int (length kvs))"
| "len (JStr s) = Inr (int (length s))"
| "len _ = Inl TypeError"

text \<open>\<^verbatim>\<open>sep.join(parts)\<close>.\<close>

fun join :: "string \<Rightarrow> string list \<Rightarrow> string" where
  "join sep [] = []"
| "join sep [x] = x"
| "join sep (x # y # zs) = x @ sep @ join sep (y # zs)"

section \<open>Building the request URL\<close>

text \<open>
  \<^verbatim>\<open>urllib.parse.urlencode\<close> of a dict whose values have already been through
  \<^verbatim>\<open>str()\<close>: keys and values are quoted with \<^verbatim>\<open>quote_plus\<close> (letters, digits and
  \<^verbatim>\<open>_.-~\<close> stay, a space becomes \<^verbatim>\<open>+\<close>, every other byte becomes \<^verbatim>\<open>%XX\<close>).
\<close>

definition hex_digit :: "nat \<Rightarrow> char" where
  "hex_digit n = ''0123456789ABCDEF'' ! (n mod 16)"

definition always_safe :: "char \<Rightarrow> bool" where
  "always_safe c =
     (let n = (of_char c :: nat)
      in (65 \<le> n \<and> n \<le> 90) \<or> (97 \<le> n \<and> n \<le> 122) \<or> (48 \<le> n \<and> n \<le> 57)
         \<or> c \<in> set ''_.-~'')"

definition quote_plus :: "string \<Rightarrow> string" where
  "quote_plus s =
     concat (map (\<lambda>c. if always_safe c then [c]
                       else if c = CHR '' '' then ''+''
                       else [CHR ''%'', hex_digit (of_char c div 16), hex_digit (of_char c mod 16)]) s)"

definition urlencode :: "(string \<times> string) list \<Rightarrow> string" where
  "urlencode params = join ''&'' (map (\<lambda>(k, v). quote_plus k @ ''='' @ quote_plus v) params)"

definition api_base :: string where
  "api_base = ''https://api.spotify.com/v1/''"

text \<open>Lines 57--60 of \<^verbatim>\<open>SpotifyAPI.get\<close>.\<close>

definition build_url :: "string \<Rightarrow> (string \<times> string) list \<Rightarrow> string" where
  "build_url url params =
     (let url1 = (if \<not> prefix api_base url then api_base @ url else url)
      in if params \<noteq> []
         then url1 @ (if CHR ''?'' \<in> set url1 then ''&'' else ''?'') @ urlencode params
         else url1)"

section \<open>The outside world\<close>

text \<open>
  What one pass through the \<^verbatim>\<open>try\<close> block of \<^verbatim>\<open>get\<close> (lines 65--69) can end in:
  a 2xx response whose body decodes, or one of the four exception classes the handlers
  distinguish, in the handlers' order. \<open>HTTPError code reason\<close> carries the status.
\<close>

datatype outcome =
    Ok json
  | HTTPError int string
  | URLError string
  | JSONDecodeError string
  | OtherException string

text \<open>
  The world is any deterministic machine with a state \<open>'w\<close>: it answers a request
  for a URL sent with an \<^verbatim>\<open>Authorization\<close> header, tells the time, and lets time pass.
\<close>

record 'w env =
  urlopen :: "string \<Rightarrow> string \<Rightarrow> 'w \<Rightarrow> outcome \<times> 'w"
  time_now :: "'w \<Rightarrow> real \<times> 'w"
  sleep :: "int \<Rightarrow> 'w \<Rightarrow> 'w"

text \<open>
  The lines the program logs, one constructor for each \<^verbatim>\<open>log_message\<close> call with the
  values its message interpolates (the source line is in the comment).
\<close>

datatype message =
    AuthFailed  \<comment> \<open>72\<close>
  | RateLimitedWait  \<comment> \<open>75\<close>
  | HttpErrorFor int string string  \<comment> \<open>78: code, reason, url\<close>
  | NetworkErrorFor string string  \<comment> \<open>82: reason, url\<close>
  | InvalidJsonFrom string string  \<comment> \<open>86: url, err\<close>
  | UnexpectedErrorFor string string  \<comment> \<open>90: err, url\<close>
  | Retrying int int  \<comment> \<open>95: attempt + 2, tries\<close>
  | FailedToLoad int string  \<comment> \<open>97: tries, url\<close>
  | LoadedItems int json  \<comment> \<open>110: len(items), response['total']\<close>
  | LoadingPlaylist json json  \<comment> \<open>191: name, total\<close>
  | ErrorLoadingPlaylist json pyexn  \<comment> \<open>195: name, e\<close>

datatype event =
    Request string string  \<comment> \<open>url, Authorization header\<close>
  | Log message
  | Sleep int

record 'w state =
  world :: 'w
  trace :: "event list"

definition log_message :: "message \<Rightarrow> 'w state \<Rightarrow> 'w state" where
  "log_message m st = st\<lparr>trace := trace st @ [Log m]\<rparr>"

definition time_sleep :: "'w env \<Rightarrow> int \<Rightarrow> 'w state \<Rightarrow> 'w state" where
  "time_sleep env n st = st\<lparr>world := sleep env n (world st), trace := trace st @ [Sleep n]\<rparr>"

definition send_request :: "'w env \<Rightarrow> string \<Rightarrow> string \<Rightarrow> 'w state \<Rightarrow> outcome \<times> 'w state" where
  "send_request env auth url st =
     (let hdr = ''Bearer '' @ auth;
          r = urlopen env url hdr (world st)
      in (fst r, st\<lparr>world := snd r, trace := trace st @ [Request url hdr]\<rparr>))"

section \<open>\<^verbatim>\<open>SpotifyAPI.get\<close>\<close>

text \<open>
  The body of the \<^verbatim>\<open>for\<close> loop (lines 64--95) at one \<open>attempt\<close> (counted from 0).
  \<open>Some r\<close> leaves the function with \<open>r\<close>; \<open>None\<close> goes on to the next iteration.
\<close>

definition one_attempt ::
  "'w env \<Rightarrow> string \<Rightarrow> string \<Rightarrow> int \<Rightarrow> int \<Rightarrow> 'w state \<Rightarrow> json result option \<times> 'w state" where
  "one_attempt env auth url tries attempt st =
     (let (out, st1) = send_request env auth url st;
          announce = (\<lambda>s. if attempt < tries - 1
                          then log_message (Retrying (attempt + 2) tries) s else s)
      in case out of
           Ok body \<Rightarrow> (Some (Return body), st1)
         | HTTPError code reason \<Rightarrow>
             if code = 401 then (Some (Exit 1), log_message AuthFailed st1)
             else if code = 429 then
               (None, announce (time_sleep env (10 * (attempt + 1)) (log_message RateLimitedWait st1)))
             else
               (let st2 = log_message (HttpErrorFor code reason url) st1
                in (None, announce (if attempt < tries - 1
                                    then time_sleep env (2 * (attempt + 1)) st2 else st2)))
         | URLError reason \<Rightarrow>
             (let st2 = log_message (NetworkErrorFor reason url) st1
              in (None, announce (if attempt < tries - 1
                                  then time_sleep env (2 * (attempt + 1)) st2 else st2)))
         | JSONDecodeError err \<Rightarrow>
             (let st2 = log_message (InvalidJsonFrom url err) st1
              in (None, announce (if attempt < tries - 1 then time_sleep env 2 st2 else st2)))
         | OtherException err \<Rightarrow>
             (let st2 = log_message (UnexpectedErrorFor err url) st1
              in (None, announce (if attempt < tries - 1 then time_sleep env 2 st2 else st2))))"

text \<open>
  \<^verbatim>\<open>for attempt in range(tries)\<close> from \<open>attempt\<close> on, then lines 97--98 when the range
  is used up.
\<close>

function attempts ::
  "'w env \<Rightarrow> string \<Rightarrow> string \<Rightarrow> int \<Rightarrow> int \<Rightarrow> 'w state \<Rightarrow> json result \<times> 'w state" where
  "attempts env auth url tries attempt st =
     (if attempt < tries then
        (case one_attempt env auth url tries attempt st of
           (Some r, st') \<Rightarrow> (r, st')
         | (None, st') \<Rightarrow> attempts env auth url tries (attempt + 1) st')
      else (Exit 1, log_message (FailedToLoad tries url) st))"
  by pat_completeness auto
termination
  by (relation "measure (\<lambda>(env, auth, url, tries, attempt, st). nat (tries - attempt))") auto

declare attempts.simps [simp del]

text \<open>
  \<^verbatim>\<open>get(url, params, tries)\<close>. The URL can come out of a decoded body
  (\<^verbatim>\<open>response['next']\<close>, \<^verbatim>\<open>playlist['tracks']['href']\<close>), so it is a JSON value here:
  \<^verbatim>\<open>url.startswith\<close> on anything but a string raises \<^verbatim>\<open>AttributeError\<close>, outside the
  \<^verbatim>\<open>try\<close> block.
\<close>

definition get ::
  "'w env \<Rightarrow> string \<Rightarrow> json \<Rightarrow> (string \<times> string) list \<Rightarrow> int \<Rightarrow> 'w state
     \<Rightarrow> json result \<times> 'w state" where
  "get env auth url params tries st =
     (case url of
        JStr u \<Rightarrow> attempts env auth (build_url u params) tries 0 st
      | _ \<Rightarrow> (Raise AttributeError, st))"

section \<open>\<^verbatim>\<open>SpotifyAPI.list\<close>\<close>

definition read_time :: "'w env \<Rightarrow> 'w state \<Rightarrow> real \<times> 'w state" where
  "read_time env st = (let r = time_now env (world st) in (fst r, st\<lparr>world := snd r\<rparr>))"

text \<open>Lines 108--110: the progress line; the result is the new \<^verbatim>\<open>last_log_time\<close>.\<close>

definition progress ::
  "'w env \<Rightarrow> real \<Rightarrow> json \<Rightarrow> json \<Rightarrow> 'w state \<Rightarrow> (pyexn + real) \<times> 'w state" where
  "progress env last_log_time response items st =
     (let (now, st1) = read_time env st
      in if now > last_log_time + 15 then
           (let (now2, st2) = read_time env st1
            in case len items of
                 Inl e \<Rightarrow> (Inl e, st2)
               | Inr n \<Rightarrow>
                   (case subscript response ''total'' of
                      Inl e \<Rightarrow> (Inl e, st2)
                    | Inr tot \<Rightarrow> (Inr now2, log_message (LoadedItems n tot) st2)))
         else (Inr last_log_time, st1))"

text \<open>
  The \<^verbatim>\<open>while\<close> loop of lines 107--114. Nothing bounds the number of pages, so the loop
  is a partial function: \<open>None\<close> is a walk that never ends.
\<close>

partial_function (option) list_loop ::
  "'w env \<Rightarrow> string \<Rightarrow> real \<Rightarrow> json \<Rightarrow> json \<Rightarrow> 'w state \<Rightarrow> (json result \<times> 'w state) option" where
  "list_loop env auth last_log_time response items st =
     (case subscript response ''next'' of
        Inl e \<Rightarrow> Some (Raise e, st)
      | Inr nxt \<Rightarrow>
          if \<not> truthy nxt then Some (Return items, st)
          else
            (case progress env last_log_time response items st of
               (Inl e, st1) \<Rightarrow> Some (Raise e, st1)
             | (Inr last_log_time', st1) \<Rightarrow>
                 (case get env auth nxt [] 3 st1 of
                    (Raise e, st2) \<Rightarrow> Some (Raise e, st2)
                  | (Exit n, st2) \<Rightarrow> Some (Exit n, st2)
                  | (Return response', st2) \<Rightarrow>
                      (case subscript response' ''items'' of
                         Inl e \<Rightarrow> Some (Raise e, st2)
                       | Inr page_items \<Rightarrow>
                           (case iadd items page_items of
                              Inl e \<Rightarrow> Some (Raise e, st2)
                            | Inr items' \<Rightarrow>
                                list_loop env auth last_log_time' response' items' st2)))))"

definition list_paged ::
  "'w env \<Rightarrow> string \<Rightarrow> json \<Rightarrow> (string \<times> string) list \<Rightarrow> 'w state
     \<Rightarrow> (json result \<times> 'w state) option" where
  "list_paged env auth url params st =
     (let (last_log_time, st0) = read_time env st
      in case get env auth url params 3 st0 of
           (Raise e, st1) \<Rightarrow> Some (Raise e, st1)
         | (Exit n, st1) \<Rightarrow> Some (Exit n, st1)
         | (Return response, st1) \<Rightarrow>
             (case subscript response ''items'' of
                Inl e \<Rightarrow> Some (Raise e, st1)
              | Inr items \<Rightarrow> list_loop env auth last_log_time response items st1))"

section \<open>Resolving the playlists' tracks\<close>









section \<open>The local server that captures the token\<close>

text \<open>What a handler does to its connection, in order.\<close>

datatype reply =
    SendResponse int
  | SendHeader string string
  | EndHeaders
  | WriteBody string
  | SendError int

text \<open>A handler returns, or leaves by raising \<^verbatim>\<open>_Authorization(access_token)\<close>.\<close>

datatype handled = Returned | RaisedAuthorization string

text \<open>
  \<^verbatim>\<open>re.search('access_token=([^&]*)', path)\<close>: the leftmost place where the literal
  occurs, and as group 1 the longest run of characters other than \<^verbatim>\<open>&\<close> after it.
\<close>

fun search_access_token :: "string \<Rightarrow> string option" where
  "search_access_token [] = None"
| "search_access_token (c # cs) =
     (if prefix ''access_token='' (c # cs)
      then Some (takeWhile (\<lambda>x. x \<noteq> CHR ''&'') (drop (length ''access_token='') (c # cs)))
      else search_access_token cs)"

definition redirect_page :: string where
  "redirect_page = ''<script>location.replace(\"token?\" + location.hash.slice(1));</script>''"

definition thanks_page :: string where
  "thanks_page = ''<script>close()</script>Thanks! You may now close this window.''"

text \<open>
  \<^verbatim>\<open>_AuthorizationHandler.do_GET\<close> (lines 152--177): what is sent, whether line 173
  logged the receipt of the token, and how the handler ends.
\<close>

definition do_GET :: "string \<Rightarrow> reply list \<times> bool \<times> handled" where
  "do_GET path =
     (if prefix ''/redirect'' path then
        ([SendResponse 200, SendHeader ''Content-Type'' ''text/html'', EndHeaders,
          WriteBody redirect_page], False, Returned)
      else if prefix ''/token?'' path then
        (let sent = [SendResponse 200, SendHeader ''Content-Type'' ''text/html'', EndHeaders,
                     WriteBody thanks_page]
         in case search_access_token path of
              None \<Rightarrow> (sent @ [SendError 400], False, Returned)
            | Some access_token \<Rightarrow> (sent, True, RaisedAuthorization access_token))
      else ([SendError 404], False, Returned))"

text \<open>
  The status line a client reads is the first one on its connection: \<^verbatim>\<open>send_response\<close>
  and \<^verbatim>\<open>send_error\<close> each write one, and whatever follows the first header block is body.
\<close>

fun status_on_wire :: "reply list \<Rightarrow> int option" where
  "status_on_wire [] = None"
| "status_on_wire (SendResponse code # sent) = Some code"
| "status_on_wire (SendError code # sent) = Some code"
| "status_on_wire (r # sent) = status_on_wire sent"

text \<open>
  The listener of \<^verbatim>\<open>authorize\<close> (lines 130--137). What reaches \<^verbatim>\<open>handle_request\<close> is a
  \<^verbatim>\<open>GET\<close> for a path, or an exception that is not \<^verbatim>\<open>_Authorization\<close> (the calling
  context is interrupted); \<^verbatim>\<open>handle_error\<close> re-raises, so either exception leaves the
  loop, and \<^verbatim>\<open>finally\<close> closes the server. When the requests run out the loop is still
  blocked in \<^verbatim>\<open>handle_request\<close>.
\<close>

datatype inbound = GET string | Interrupt

datatype authorization = Waiting | Authorized string | Interrupted

record listener =
  socket_open :: bool
  sent :: "reply list list"
  token_logged :: nat

fun serve :: "inbound list \<Rightarrow> listener \<Rightarrow> authorization \<times> listener \<times> inbound list" where
  "serve [] l = (Waiting, l, [])"
| "serve (Interrupt # rest) l = (Interrupted, l\<lparr>socket_open := False\<rparr>, rest)"
| "serve (GET path # rest) l =
     (case do_GET path of
        (out, logged, Returned) \<Rightarrow>
          serve rest (l\<lparr>sent := sent l @ [out],
                         token_logged := token_logged l + (if logged then 1 else 0)\<rparr>)
      | (out, logged, RaisedAuthorization access_token) \<Rightarrow>
          (Authorized access_token,
           l\<lparr>socket_open := False, sent := sent l @ [out],
              token_logged := token_logged l + (if logged then 1 else 0)\<rparr>,
           rest))"

definition authorize :: "inbound list \<Rightarrow> authorization \<times> listener \<times> inbound list" where
  "authorize requests = serve requests \<lparr>socket_open = True, sent = [], token_logged = 0\<rparr>"

section \<open>The text writer of \<^verbatim>\<open>main\<close>\<close>

text \<open>
  One constructor for each \<^verbatim>\<open>f.write\<close> call of lines 361--405, with the values its
  text interpolates: a value formatted by \<^verbatim>\<open>format\<close> or an f-string is kept as the JSON
  value it is, a value that the code joins or concatenates is the string that results.
\<close>

datatype out_line =
    PlaylistsHeader  \<comment> \<open>361\<close>
  | PlaylistName string  \<comment> \<open>363\<close>
  | TrackRow json string json json json  \<comment> \<open>367: name, artists, album, uri, release_date\<close>
  | BlankLine  \<comment> \<open>374\<close>
  | LikedAlbumsHeader  \<comment> \<open>376\<close>
  | AlbumRow json string json json  \<comment> \<open>384: name, artists, uri, release_date\<close>
  | TopArtistsHeader string  \<comment> \<open>388: the time range as a title\<close>
  | ArtistRow int json string json json  \<comment> \<open>394: i, name, genres, followers, uri\<close>
  | TopTracksHeader string  \<comment> \<open>398: the time range as a title\<close>
  | TopTrackRow int json string json json json  \<comment> \<open>405: i, name, artists, album, uri, release_date\<close>

text \<open>What has been written, and the exception that stopped the writing, if any.\<close>

type_synonym written = "out_line list \<times> pyexn option"

fun seq :: "written \<Rightarrow> written \<Rightarrow> written" where
  "seq (ls, Some e) w = (ls, Some e)"
| "seq (ls, None) (ls', r) = (ls @ ls', r)"

text \<open>Evaluation in sequence: the first exception ends it.\<close>

fun thn :: "pyexn + 'a \<Rightarrow> ('a \<Rightarrow> pyexn + 'b) \<Rightarrow> pyexn + 'b" where
  "thn (Inl e) f = Inl e"
| "thn (Inr x) f = f x"

fun traverse :: "('a \<Rightarrow> pyexn + 'b) \<Rightarrow> 'a list \<Rightarrow> pyexn + 'b list" where
  "traverse f [] = Inr []"
| "traverse f (x # xs) = thn (f x) (\<lambda>y. thn (traverse f xs) (\<lambda>ys. Inr (y # ys)))"

text \<open>A value used where only a \<^verbatim>\<open>str\<close> will do (\<^verbatim>\<open>+\<close> with a string, an item of \<^verbatim>\<open>join\<close>).\<close>

fun as_str :: "json \<Rightarrow> pyexn + string" where
  "as_str (JStr s) = Inr s"
| "as_str _ = Inl TypeError"

text \<open>\<^verbatim>\<open>', '.join(xs)\<close> for any object \<^verbatim>\<open>xs\<close>.\<close>

definition join_comma :: "json \<Rightarrow> pyexn + string" where
  "join_comma xs = thn (iter xs) (\<lambda>vs. thn (traverse as_str vs) (\<lambda>ss. Inr (join '', '' ss)))"

text \<open>\<^verbatim>\<open>', '.join([artist['name'] for artist in artists])\<close>.\<close>

definition artist_names :: "json \<Rightarrow> pyexn + string" where
  "artist_names artists =
     thn (iter artists) (\<lambda>as. thn (traverse (\<lambda>artist. subscript artist ''name'') as)
       (\<lambda>names. thn (traverse as_str names) (\<lambda>ss. Inr (join '', '' ss))))"

text \<open>\<^verbatim>\<open>time_range.replace("_", " ").title()\<close>, on ASCII.\<close>

definition ascii_lowercase :: string where
  "ascii_lowercase = ''abcdefghijklmnopqrstuvwxyz''"

definition ascii_uppercase :: string where
  "ascii_uppercase = ''ABCDEFGHIJKLMNOPQRSTUVWXYZ''"

definition upper :: "char \<Rightarrow> char" where
  "upper c = (case map_of (zip ascii_lowercase ascii_uppercase) c of Some u \<Rightarrow> u | None \<Rightarrow> c)"

definition lower :: "char \<Rightarrow> char" where
  "lower c = (case map_of (zip ascii_uppercase ascii_lowercase) c of Some l \<Rightarrow> l | None \<Rightarrow> c)"

text \<open>
  \<^verbatim>\<open>str.title\<close>: a letter that follows a letter is lowered, any other letter is raised.
\<close>

fun title_from :: "bool \<Rightarrow> string \<Rightarrow> string" where
  "title_from prev_cased [] = []"
| "title_from prev_cased (c # cs) =
     (if c \<in> set ascii_lowercase \<or> c \<in> set ascii_uppercase then
        (if prev_cased then lower c else upper c) # title_from True cs
      else c # title_from False cs)"

definition range_title :: "string \<Rightarrow> string" where
  "range_title time_range =
     title_from False (map (\<lambda>c. if c = CHR ''_'' then CHR '' '' else c) time_range)"

text \<open>Lines 365--373: one track of a playlist; \<open>None\<close> is the \<^verbatim>\<open>continue\<close>.\<close>

definition track_row :: "json \<Rightarrow> pyexn + out_line option" where
  "track_row track =
     thn (subscript track ''track'') (\<lambda>t.
       if t = JNull then Inr None
       else
         thn (subscript t ''uri'') (\<lambda>uri.
         thn (subscript t ''name'') (\<lambda>name.
         thn (subscript t ''artists'') (\<lambda>artists.
         thn (artist_names artists) (\<lambda>names.
         thn (subscript t ''album'') (\<lambda>album.
         thn (subscript album ''name'') (\<lambda>album_name.
         thn (subscript album ''release_date'') (\<lambda>release_date.
           Inr (Some (TrackRow name names album_name uri release_date))))))))))"

fun write_tracks :: "json list \<Rightarrow> written" where
  "write_tracks [] = ([], None)"
| "write_tracks (track # rest) =
     (case track_row track of
        Inl e \<Rightarrow> ([], Some e)
      | Inr None \<Rightarrow> write_tracks rest
      | Inr (Some row) \<Rightarrow> seq ([row], None) (write_tracks rest))"

text \<open>Lines 363--374: one playlist.\<close>

definition write_playlist :: "json \<Rightarrow> written" where
  "write_playlist playlist =
     (case thn (subscript playlist ''name'') as_str of
        Inl e \<Rightarrow> ([], Some e)
      | Inr name \<Rightarrow>
          seq ([PlaylistName name], None)
            (case thn (subscript playlist ''tracks'') iter of
               Inl e \<Rightarrow> ([], Some e)
             | Inr tracks \<Rightarrow> seq (write_tracks tracks) ([BlankLine], None)))"

fun write_playlists :: "json list \<Rightarrow> written" where
  "write_playlists [] = ([], None)"
| "write_playlists (playlist # rest) = seq (write_playlist playlist) (write_playlists rest)"

text \<open>Lines 377--384: the rows of the liked albums.\<close>

definition album_row :: "json \<Rightarrow> pyexn + out_line" where
  "album_row album =
     thn (subscript album ''album'') (\<lambda>a.
     thn (subscript a ''uri'') (\<lambda>uri.
     thn (subscript a ''name'') (\<lambda>name.
     thn (subscript a ''artists'') (\<lambda>artists.
     thn (artist_names artists) (\<lambda>names.
     thn (subscript a ''release_date'') (\<lambda>release_date.
       Inr (AlbumRow name names uri release_date)))))))"

fun write_rows :: "('a \<Rightarrow> pyexn + out_line) \<Rightarrow> 'a list \<Rightarrow> written" where
  "write_rows row [] = ([], None)"
| "write_rows row (x # xs) =
     (case row x of
        Inl e \<Rightarrow> ([], Some e)
      | Inr line \<Rightarrow> seq ([line], None) (write_rows row xs))"

text \<open>Lines 389--394: a top artist, numbered by \<^verbatim>\<open>enumerate(top_artists, 1)\<close>.\<close>

definition artist_row :: "int \<times> json \<Rightarrow> pyexn + out_line" where
  "artist_row ia =
     (case ia of (i, artist) \<Rightarrow>
        thn (subscript artist ''name'') (\<lambda>name.
        thn (subscript artist ''genres'') (\<lambda>g.
        thn (if truthy g then join_comma g else Inr ''No genres'') (\<lambda>genres.
        thn (subscript artist ''followers'') (\<lambda>f.
        thn (subscript f ''total'') (\<lambda>followers.
        thn (subscript artist ''uri'') (\<lambda>uri.
          Inr (ArtistRow i name genres followers uri))))))))"

text \<open>Lines 399--405: a top track.\<close>

definition top_track_row :: "int \<times> json \<Rightarrow> pyexn + out_line" where
  "top_track_row it =
     (case it of (i, track) \<Rightarrow>
        thn (subscript track ''name'') (\<lambda>name.
        thn (subscript track ''artists'') (\<lambda>artists.
        thn (artist_names artists) (\<lambda>names.
        thn (subscript track ''album'') (\<lambda>album.
        thn (subscript album ''name'') (\<lambda>album_name.
        thn (subscript track ''uri'') (\<lambda>uri.
        thn (subscript album ''release_date'') (\<lambda>release_date.
          Inr (TopTrackRow i name names album_name uri release_date)))))))))"

definition enumerate_from_1 :: "'a list \<Rightarrow> (int \<times> 'a) list" where
  "enumerate_from_1 xs = zip (map (\<lambda>k. int k + 1) [0..<length xs]) xs"

text \<open>Lines 387--394 and 397--405: a section of top items, written when it is not empty.\<close>

definition write_top ::
  "out_line \<Rightarrow> (int \<times> json \<Rightarrow> pyexn + out_line) \<Rightarrow> json \<Rightarrow> written" where
  "write_top header row top_items =
     (case len top_items of
        Inl e \<Rightarrow> ([], Some e)
      | Inr n \<Rightarrow>
          if n > 0 then
            seq ([header], None)
              (case iter top_items of
                 Inl e \<Rightarrow> ([], Some e)
               | Inr xs \<Rightarrow> write_rows row (enumerate_from_1 xs))
          else ([], None))"

text \<open>
  Lines 361--405, the branch of \<^verbatim>\<open>main\<close> for the text format. \<open>playlists\<close> is the list
  that \<^verbatim>\<open>main\<close> built; the other three are what \<^verbatim>\<open>spotify.list\<close> returned, or \<open>JArr []\<close>.
\<close>

definition write_txt :: "json list \<Rightarrow> json \<Rightarrow> json \<Rightarrow> json \<Rightarrow> string \<Rightarrow> written" where
  "write_txt playlists liked_albums top_artists top_tracks time_range =
     seq ([PlaylistsHeader], None)
       (seq (write_playlists playlists)
          (case len liked_albums of
             Inl e \<Rightarrow> ([], Some e)
           | Inr n \<Rightarrow>
               if n > 0 then
                 seq ([LikedAlbumsHeader], None)
                   (seq (case iter liked_albums of
                           Inl e \<Rightarrow> ([], Some e)
                         | Inr albums \<Rightarrow> write_rows album_row albums)
                      (seq (write_top (TopArtistsHeader (range_title time_range)) artist_row
                              top_artists)
                           (write_top (TopTracksHeader (range_title time_range)) top_track_row
                              top_tracks)))
               else ([], None)))"

section \<open>Vocabulary of the statements\<close>

text \<open>The URLs requested in a trace, in order.\<close>

fun requests :: "event list \<Rightarrow> string list" where
  "requests [] = []"
| "requests (Request url hdr # evs) = url # requests evs"
| "requests (Log m # evs) = requests evs"
| "requests (Sleep n # evs) = requests evs"

text \<open>
  \<open>retried env auth url tries attempt k st\<close> is the state after \<open>k\<close> iterations of the
  loop of \<^verbatim>\<open>get\<close>, from \<open>attempt\<close> on, when each of them went on to the next (none
  returned, none ended the process).
\<close>

fun retried ::
  "'w env \<Rightarrow> string \<Rightarrow> string \<Rightarrow> int \<Rightarrow> int \<Rightarrow> nat \<Rightarrow> 'w state \<Rightarrow> 'w state option" where
  "retried env auth url tries attempt 0 st = Some st"
| "retried env auth url tries attempt (Suc k) st =
     (if attempt < tries then
        (case one_attempt env auth url tries attempt st of
           (None, st') \<Rightarrow> retried env auth url tries (attempt + 1) k st'
         | (Some r, st') \<Rightarrow> None)
      else None)"

text \<open>The line that reports an attempt that ended in \<open>out\<close> (lines 72, 75, 78, 82, 86, 90).\<close>

fun error_line :: "outcome \<Rightarrow> string \<Rightarrow> message option" where
  "error_line (Ok body) url = None"
| "error_line (HTTPError code reason) url =
     Some (if code = 401 then AuthFailed
           else if code = 429 then RateLimitedWait
           else HttpErrorFor code reason url)"
| "error_line (URLError reason) url = Some (NetworkErrorFor reason url)"
| "error_line (JSONDecodeError err) url = Some (InvalidJsonFrom url err)"
| "error_line (OtherException err) url = Some (UnexpectedErrorFor err url)"

text \<open>A server that answers from a script, one outcome for each request.\<close>

definition script_env :: "outcome list env" where
  "script_env =
     \<lparr>urlopen = (\<lambda>url hdr w. case w of [] \<Rightarrow> (URLError ''unreachable'', [])
                                | out # rest \<Rightarrow> (out, rest)),
      time_now = (\<lambda>w. (0, w)),
      sleep = (\<lambda>n w. w)\<rparr>"

text \<open>
  A server whose answer depends on the URL alone; its state is a clock that moves on by
  20 seconds at each reading.
\<close>

definition static_env :: "(string \<Rightarrow> outcome) \<Rightarrow> nat env" where
  "static_env answer =
     \<lparr>urlopen = (\<lambda>url hdr w. (answer url, w)),
      time_now = (\<lambda>w. (20 * real w, Suc w)),
      sleep = (\<lambda>n w. w)\<rparr>"

text \<open>
  The seconds slept after an attempt that ended in \<open>out\<close>, \<open>n\<close> being the number of
  the attempt counted from 1 (lines 76, 80, 84, 88, 92).
\<close>

fun backoff :: "outcome \<Rightarrow> int \<Rightarrow> int" where
  "backoff (Ok body) n = 0"
| "backoff (HTTPError code reason) n = (if code = 429 then 10 * n else 2 * n)"
| "backoff (URLError reason) n = 2 * n"
| "backoff (JSONDecodeError err) n = 2"
| "backoff (OtherException err) n = 2"

text \<open>The lines of the sections ``Liked Albums'', ``Top Artists'' and ``Top Tracks''.\<close>

fun section_line :: "out_line \<Rightarrow> bool" where
  "section_line LikedAlbumsHeader = True"
| "section_line (AlbumRow name artists uri release_date) = True"
| "section_line (TopArtistsHeader t) = True"
| "section_line (ArtistRow i name genres followers uri) = True"
| "section_line (TopTracksHeader t) = True"
| "section_line (TopTrackRow i name artists album uri release_date) = True"
| "section_line _ = False"

text \<open>
  A walk over a paged resource: for each page in turn, the URL it is requested at and
  the decoded body. The walk is \<open>linked\<close> when every page but the last names in
  \<^verbatim>\<open>next\<close> the URL of the page after it (\<^verbatim>\<open>get\<close> prefixes a relative one and adds no
  parameter) and the \<^verbatim>\<open>next\<close> of the last page is null, or false in any other way.
\<close>

fun linked :: "(string \<times> json) list \<Rightarrow> bool" where
  "linked [] = False"
| "linked [(url, r)] = (case subscript r ''next'' of Inr nxt \<Rightarrow> \<not> truthy nxt | Inl e \<Rightarrow> False)"
| "linked ((url, r) # (url', r') # rest) =
     ((case subscript r ''next'' of
         Inr (JStr n) \<Rightarrow> n \<noteq> [] \<and> url' = build_url n []
       | _ \<Rightarrow> False)
      \<and> linked ((url', r') # rest))"

text \<open>A body of the shape of a page: \<^verbatim>\<open>items\<close> is a list, and there is a \<^verbatim>\<open>total\<close>.\<close>

definition page_ok :: "json \<Rightarrow> bool" where
  "page_ok r =
     ((case subscript r ''items'' of Inr (JArr xs) \<Rightarrow> True | _ \<Rightarrow> False)
      \<and> (case subscript r ''total'' of Inr t \<Rightarrow> True | Inl e \<Rightarrow> False))"

definition items_of :: "json \<Rightarrow> json list" where
  "items_of r = (case subscript r ''items'' of Inr (JArr xs) \<Rightarrow> xs | _ \<Rightarrow> [])"

text \<open>A resource of five items served in three pages of at most two.\<close>

definition liked_tracks_server :: "string \<Rightarrow> outcome" where
  "liked_tracks_server url =
     (if url = ''https://api.spotify.com/v1/me/tracks?limit=2'' then
        Ok (JObj [(''items'', JArr [JStr ''a'', JStr ''b'']),
                  (''next'', JStr ''https://api.spotify.com/v1/me/tracks?offset=2&limit=2''),
                  (''total'', JNum 5)])
      else if url = ''https://api.spotify.com/v1/me/tracks?offset=2&limit=2'' then
        Ok (JObj [(''items'', JArr [JStr ''c'', JStr ''d'']),
                  (''next'', JStr ''https://api.spotify.com/v1/me/tracks?offset=4&limit=2''),
                  (''total'', JNum 5)])
      else if url = ''https://api.spotify.com/v1/me/tracks?offset=4&limit=2'' then
        Ok (JObj [(''items'', JArr [JStr ''e'']), (''next'', JNull), (''total'', JNum 5)])
      else HTTPError 404 ''Not Found'')"



section \<open>The retry loop of \<^verbatim>\<open>get\<close>\<close>

lemma attempts_go_on:
  "attempt < tries \<Longrightarrow> one_attempt env auth url tries attempt st = (None, st')
     \<Longrightarrow> attempts env auth url tries attempt st = attempts env auth url tries (attempt + 1) st'"
  by (subst attempts.simps) simp

lemma attempts_leave:
  "attempt < tries \<Longrightarrow> one_attempt env auth url tries attempt st = (Some r, st')
     \<Longrightarrow> attempts env auth url tries attempt st = (r, st')"
  by (subst attempts.simps) simp

lemma attempts_used_up:
  "\<not> attempt < tries
     \<Longrightarrow> attempts env auth url tries attempt st = (Exit 1, log_message (FailedToLoad tries url) st)"
  by (subst attempts.simps) simp

lemma retried_Suc:
  "retried env auth url tries attempt (Suc k) st = Some st'
     \<Longrightarrow> attempt < tries \<and>
        (\<exists>st1. one_attempt env auth url tries attempt st = (None, st1)
               \<and> retried env auth url tries (attempt + 1) k st1 = Some st')"
  by (auto split: if_splits prod.splits option.splits)

lemma attempts_retried:
  "retried env auth url tries attempt k st = Some st'
     \<Longrightarrow> attempts env auth url tries attempt st = attempts env auth url tries (attempt + int k) st'"
proof (induction k arbitrary: attempt st)
  case 0
  then show ?case by simp
next
  case (Suc k)
  from retried_Suc [OF Suc.prems] obtain st1 where
    lt: "attempt < tries" and
    one: "one_attempt env auth url tries attempt st = (None, st1)" and
    rest: "retried env auth url tries (attempt + 1) k st1 = Some st'"
    by blast
  have "attempts env auth url tries attempt st = attempts env auth url tries (attempt + 1) st1"
    using lt one by (rule attempts_go_on)
  also have "\<dots> = attempts env auth url tries (attempt + 1 + int k) st'"
    using rest by (rule Suc.IH)
  finally show ?case by (simp add: ac_simps)
qed

lemma retried_snoc:
  "retried env auth url tries attempt k st = Some st1
     \<Longrightarrow> attempt + int k < tries
     \<Longrightarrow> one_attempt env auth url tries (attempt + int k) st1 = (None, st2)
     \<Longrightarrow> retried env auth url tries attempt (Suc k) st = Some st2"
proof (induction k arbitrary: attempt st)
  case 0
  then show ?case by simp
next
  case (Suc k)
  from retried_Suc [OF Suc.prems(1)] obtain st' where
    lt: "attempt < tries" and
    one: "one_attempt env auth url tries attempt st = (None, st')" and
    rest: "retried env auth url tries (attempt + 1) k st' = Some st1"
    by blast
  have "retried env auth url tries (attempt + 1) (Suc k) st' = Some st2"
    using rest Suc.prems(2,3) by (intro Suc.IH) (simp_all add: ac_simps)
  with lt one show ?case by simp
qed

lemma requests_append: "requests (xs @ ys) = requests xs @ requests ys"
  by (induction xs rule: requests.induct) simp_all


lemma one_attempt_Ok:
  "urlopen env url (''Bearer '' @ auth) (world st) = (Ok body, w')
   \<Longrightarrow> one_attempt env auth url tries attempt st =
       (Some (Return body),
        st\<lparr>world := w', trace := trace st @ [Request url (''Bearer '' @ auth)]\<rparr>)"
  by (simp add: one_attempt_def send_request_def log_message_def Let_def)

lemma one_attempt_failed:
  assumes "urlopen env url (''Bearer '' @ auth) (world st) = (out, w1)"
    and "error_line out url = Some m" and "m \<noteq> AuthFailed"
  shows "one_attempt env auth url tries attempt st =
     (None,
      st\<lparr>world := (if m = RateLimitedWait \<or> attempt < tries - 1
                    then sleep env (backoff out (attempt + 1)) w1 else w1),
         trace := trace st @ [Request url (''Bearer '' @ auth), Log m]
           @ (if m = RateLimitedWait \<or> attempt < tries - 1
              then [Sleep (backoff out (attempt + 1))] else [])
           @ (if attempt < tries - 1 then [Log (Retrying (attempt + 2) tries)] else [])\<rparr>)"
  using assms
  by (cases out)
    (auto simp: one_attempt_def send_request_def log_message_def time_sleep_def Let_def)

lemma one_attempt_None_trace:
  "one_attempt env auth url tries attempt st = (None, st')
   \<Longrightarrow> \<exists>evs. trace st' = trace st @ Request url (''Bearer '' @ auth) # evs
         \<and> Log AuthFailed \<notin> set evs \<and> requests evs = []"
  by (auto simp: one_attempt_def send_request_def log_message_def time_sleep_def Let_def
      split: outcome.splits if_splits prod.splits)

lemma retried_trace:
  "retried env auth url tries attempt k st = Some st'
   \<Longrightarrow> count_list (trace st') (Log AuthFailed) = count_list (trace st) (Log AuthFailed)
     \<and> requests (trace st') = requests (trace st) @ replicate k url"
proof (induction k arbitrary: attempt st)
  case 0
  then show ?case by simp
next
  case (Suc k)
  from retried_Suc [OF Suc.prems] obtain st1 where
    one: "one_attempt env auth url tries attempt st = (None, st1)" and
    rest: "retried env auth url tries (attempt + 1) k st1 = Some st'"
    by blast
  from one_attempt_None_trace [OF one] obtain evs where
    evs: "trace st1 = trace st @ Request url (''Bearer '' @ auth) # evs"
      "Log AuthFailed \<notin> set evs" "requests evs = []"
    by blast
  have c: "count_list evs (Log AuthFailed) = 0"
    using evs(2) by (simp add: count_list_0_iff)
  from Suc.IH [OF rest] evs(1,3) c show ?case
    by (simp add: requests_append replicate_app_Cons_same)
qed

subsection \<open>HTTP 401\<close>


subsection \<open>HTTP 429\<close>

text \<open>
  Claim C5. At every attempt number \<open>n = k + 1\<close>, an HTTP 429 is followed by a sleep of
  \<open>10 * n\<close> seconds, after which the loop goes on (announcing the retry when \<open>n\<close> is
  not the last attempt); and when the attempt after the sleep gets a 2xx answer with a
  body that decodes, \<^verbatim>\<open>get\<close> returns that body, having sent nothing else in between.
\<close>

theorem get_429_waits_then_retries:
  assumes "retried env auth (build_url u params) tries 0 k st = Some st_k"
    and "int k < tries"
    and "urlopen env (build_url u params) (''Bearer '' @ auth) (world st_k) = (HTTPError 429 reason, w1)"
  shows "(\<exists>st1. retried env auth (build_url u params) tries 0 (Suc k) st = Some st1
            \<and> world st1 = sleep env (10 * (int k + 1)) w1
            \<and> trace st1 = trace st_k
                 @ [Request (build_url u params) (''Bearer '' @ auth), Log RateLimitedWait,
                    Sleep (10 * (int k + 1))]
                 @ (if int k + 1 < tries then [Log (Retrying (int k + 2) tries)] else []))
       \<and> (int k + 1 < tries
            \<and> urlopen env (build_url u params) (''Bearer '' @ auth) (sleep env (10 * (int k + 1)) w1)
                = (Ok body, w2)
          \<longrightarrow> (\<exists>st2. get env auth (JStr u) params tries st = (Return body, st2)
                 \<and> world st2 = w2
                 \<and> trace st2 = trace st_k
                      @ [Request (build_url u params) (''Bearer '' @ auth), Log RateLimitedWait,
                         Sleep (10 * (int k + 1)), Log (Retrying (int k + 2) tries),
                         Request (build_url u params) (''Bearer '' @ auth)]))"
proof -
  let ?url = "build_url u params"
  let ?hdr = "''Bearer '' @ auth"
  let ?st1 = "st_k\<lparr>world := sleep env (10 * (int k + 1)) w1,
      trace := trace st_k @ [Request ?url ?hdr, Log RateLimitedWait, Sleep (10 * (int k + 1))]
        @ (if int k + 1 < tries then [Log (Retrying (int k + 2) tries)] else [])\<rparr>"
  have one: "one_attempt env auth ?url tries (0 + int k) st_k = (None, ?st1)"
    using one_attempt_failed [OF assms(3), of RateLimitedWait tries "0 + int k"] by simp
  have r: "retried env auth ?url tries 0 (Suc k) st = Some ?st1"
    using assms(1) _ one by (rule retried_snoc) (use assms(2) in simp)
  have first: "\<exists>st1. retried env auth ?url tries 0 (Suc k) st = Some st1
            \<and> world st1 = sleep env (10 * (int k + 1)) w1
            \<and> trace st1 = trace st_k @ [Request ?url ?hdr, Log RateLimitedWait, Sleep (10 * (int k + 1))]
                 @ (if int k + 1 < tries then [Log (Retrying (int k + 2) tries)] else [])"
    using r by simp
  have second: "\<exists>st2. get env auth (JStr u) params tries st = (Return body, st2)
                 \<and> world st2 = w2
                 \<and> trace st2 = trace st_k
                      @ [Request ?url ?hdr, Log RateLimitedWait, Sleep (10 * (int k + 1)),
                         Log (Retrying (int k + 2) tries), Request ?url ?hdr]"
    if lt: "int k + 1 < tries"
      and ok: "urlopen env ?url ?hdr (sleep env (10 * (int k + 1)) w1) = (Ok body, w2)"
  proof -
    have w: "world ?st1 = sleep env (10 * (int k + 1)) w1" by simp
    have "get env auth (JStr u) params tries st = attempts env auth ?url tries (0 + int (Suc k)) ?st1"
      using attempts_retried [OF r] by (simp add: get_def)
    also have "\<dots> = (Return body,
        ?st1\<lparr>world := w2, trace := trace ?st1 @ [Request ?url ?hdr]\<rparr>)"
      using lt one_attempt_Ok [of env ?url auth ?st1 body w2 tries "0 + int (Suc k)"] ok
      by (simp add: attempts_leave)
    finally show ?thesis using lt by simp
  qed
  from first second show ?thesis by blast
qed

lemma one_attempt_extends:
  "\<exists>evs. trace (snd (one_attempt env auth url tries attempt st))
      = trace st @ Request url (''Bearer '' @ auth) # evs"
  by (auto simp: one_attempt_def send_request_def log_message_def time_sleep_def Let_def
      split: outcome.splits if_splits prod.splits)

lemma attempts_extends:
  "\<exists>evs. trace (snd (attempts env auth url tries attempt st)) = trace st @ evs"
proof (induction env auth url tries attempt st rule: attempts.induct)
  case (1 env auth url tries attempt st)
  show ?case
  proof (cases "attempt < tries")
    case False
    then show ?thesis by (simp add: attempts_used_up log_message_def)
  next
    case True
    obtain r st' where one: "one_attempt env auth url tries attempt st = (r, st')"
      by (cases "one_attempt env auth url tries attempt st")
    from one_attempt_extends [of env auth url tries attempt st] one
    obtain evs where evs: "trace st' = trace st @ Request url (''Bearer '' @ auth) # evs"
      by auto
    show ?thesis
    proof (cases r)
      case None
      with "1.IH" [OF True one [symmetric]] one
      obtain evs' where "trace (snd (attempts env auth url tries (attempt + 1) st')) = trace st' @ evs'"
        by auto
      with evs True one None show ?thesis
        by (simp add: attempts_go_on)
    next
      case (Some res)
      with evs True one show ?thesis
        by (simp add: attempts_leave)
    qed
  qed
qed

lemma attempts_starts_with_request:
  assumes "attempt < tries"
  shows "\<exists>evs. trace (snd (attempts env auth url tries attempt st))
      = trace st @ Request url (''Bearer '' @ auth) # evs"
proof -
  obtain r st' where one: "one_attempt env auth url tries attempt st = (r, st')"
    by (cases "one_attempt env auth url tries attempt st")
  from one_attempt_extends [of env auth url tries attempt st] one
  obtain evs where evs: "trace st' = trace st @ Request url (''Bearer '' @ auth) # evs"
    by auto
  show ?thesis
  proof (cases r)
    case None
    from attempts_extends [of env auth url tries "attempt + 1" st']
    obtain evs' where "trace (snd (attempts env auth url tries (attempt + 1) st')) = trace st' @ evs'"
      by auto
    with evs assms one None show ?thesis
      by (simp add: attempts_go_on)
  next
    case (Some res)
    with evs assms one show ?thesis
      by (simp add: attempts_leave)
  qed
qed

subsection \<open>Other failures\<close>

text \<open>
  Claim C4, as amended. At every attempt number \<open>n = k + 1\<close> that is not the last, a
  failure other than 401 and 429 is logged and followed by a sleep, and then by the
  next request: the sleep is \<open>2 * n\<close> seconds after an HTTP error or a network error,
  and 2 seconds, whatever \<open>n\<close>, after a body that does not decode or any other
  exception.
\<close>

theorem get_backoff_before_retry:
  assumes "retried env auth (build_url u params) tries 0 k st = Some st_k"
    and "int k + 1 < tries"
    and "urlopen env (build_url u params) (''Bearer '' @ auth) (world st_k) = (out, w1)"
    and "error_line out (build_url u params) = Some m"
    and "m \<noteq> AuthFailed" and "m \<noteq> RateLimitedWait"
  shows "\<exists>st1 evs.
      retried env auth (build_url u params) tries 0 (Suc k) st = Some st1
      \<and> world st1 =
          sleep env (case out of HTTPError code reason \<Rightarrow> 2 * (int k + 1)
                               | URLError reason \<Rightarrow> 2 * (int k + 1)
                               | _ \<Rightarrow> 2) w1
      \<and> trace st1 = trace st_k
           @ [Request (build_url u params) (''Bearer '' @ auth), Log m,
              Sleep (case out of HTTPError code reason \<Rightarrow> 2 * (int k + 1)
                               | URLError reason \<Rightarrow> 2 * (int k + 1)
                               | _ \<Rightarrow> 2),
              Log (Retrying (int k + 2) tries)]
      \<and> trace (snd (get env auth (JStr u) params tries st))
          = trace st1 @ Request (build_url u params) (''Bearer '' @ auth) # evs"
proof -
  let ?url = "build_url u params"
  let ?hdr = "''Bearer '' @ auth"
  let ?d = "case out of HTTPError code reason \<Rightarrow> 2 * (int k + 1)
                      | URLError reason \<Rightarrow> 2 * (int k + 1) | _ \<Rightarrow> 2"
  let ?st1 = "st_k\<lparr>world := sleep env ?d w1,
      trace := trace st_k @ [Request ?url ?hdr, Log m, Sleep ?d, Log (Retrying (int k + 2) tries)]\<rparr>"
  have d: "backoff out (int k + 1) = ?d"
    using assms(4,6) by (cases out) (auto split: if_splits)
  have one: "one_attempt env auth ?url tries (0 + int k) st_k = (None, ?st1)"
    using one_attempt_failed [OF assms(3,4,5), of tries "0 + int k"] assms(2,6) d by simp
  have r: "retried env auth ?url tries 0 (Suc k) st = Some ?st1"
    using assms(1) _ one by (rule retried_snoc) (use assms(2) in simp)
  have "get env auth (JStr u) params tries st = attempts env auth ?url tries (0 + int (Suc k)) ?st1"
    using attempts_retried [OF r] by (simp add: get_def)
  moreover from attempts_starts_with_request [of "0 + int (Suc k)" tries env auth ?url ?st1] assms(2)
  obtain evs where "trace (snd (attempts env auth ?url tries (0 + int (Suc k)) ?st1))
      = trace ?st1 @ Request ?url ?hdr # evs"
    by auto
  ultimately have "trace (snd (get env auth (JStr u) params tries st))
      = trace ?st1 @ Request ?url ?hdr # evs"
    by simp
  with r show ?thesis
    by (intro exI [of _ ?st1] exI [of _ evs]) simp
qed

subsection \<open>Attempts used up\<close>

text \<open>
  Claim C8. When all \<open>tries\<close> attempts have failed (the first \<open>tries - 1\<close> were
  retried, the last one ended in a failure that is not a 401), \<^verbatim>\<open>get\<close> ends the
  process with \<open>Exit 1\<close> after \<open>tries\<close> requests, and its log ends with the line that
  reports the last failure followed (after the sleep that a 429 still takes) by the
  line ``Failed to load URL after \<open>tries\<close> attempts: \<open>url\<close>''.
\<close>

theorem get_exhausted_is_fatal:
  assumes "retried env auth (build_url u params) tries 0 k st = Some st_k"
    and "int k + 1 = tries"
    and "urlopen env (build_url u params) (''Bearer '' @ auth) (world st_k) = (out, w1)"
    and "error_line out (build_url u params) = Some m"
    and "m \<noteq> AuthFailed"
  shows "\<exists>st'. get env auth (JStr u) params tries st = (Exit 1, st')
      \<and> trace st' = trace st_k
           @ [Request (build_url u params) (''Bearer '' @ auth), Log m]
           @ (if m = RateLimitedWait then [Sleep (10 * tries)] else [])
           @ [Log (FailedToLoad tries (build_url u params))]
      \<and> requests (trace st') = requests (trace st) @ replicate (nat tries) (build_url u params)"
proof -
  let ?url = "build_url u params"
  let ?hdr = "''Bearer '' @ auth"
  let ?st1 = "st_k\<lparr>world := (if m = RateLimitedWait then sleep env (10 * tries) w1 else w1),
      trace := trace st_k @ [Request ?url ?hdr, Log m]
        @ (if m = RateLimitedWait then [Sleep (10 * tries)] else [])\<rparr>"
  have b: "m = RateLimitedWait \<Longrightarrow> backoff out (int k + 1) = 10 * tries"
    using assms(2,4) by (cases out) (auto split: if_splits)
  have one: "one_attempt env auth ?url tries (0 + int k) st_k = (None, ?st1)"
    using one_attempt_failed [OF assms(3,4,5), of tries "0 + int k"] assms(2) b by auto
  have r: "retried env auth ?url tries 0 (Suc k) st = Some ?st1"
    using assms(1) _ one by (rule retried_snoc) (use assms(2) in simp)
  have "get env auth (JStr u) params tries st = attempts env auth ?url tries (0 + int (Suc k)) ?st1"
    using attempts_retried [OF r] by (simp add: get_def)
  also have "\<dots> = (Exit 1, log_message (FailedToLoad tries ?url) ?st1)"
    using assms(2) by (intro attempts_used_up) simp
  finally have g: "get env auth (JStr u) params tries st
      = (Exit 1, log_message (FailedToLoad tries ?url) ?st1)" .
  have n: "nat tries = Suc k" using assms(2) by simp
  from retried_trace [OF assms(1)] g n show ?thesis
    by (simp add: log_message_def requests_append replicate_append_same)
qed

lemma build_url_me: "build_url ''me'' [] = ''https://api.spotify.com/v1/me''"
  by (simp add: build_url_def api_base_def)

lemmas script_step =
  one_attempt_def send_request_def script_env_def log_message_def time_sleep_def

subsection \<open>The claims on a scripted server\<close>


text \<open>Claim C5 at a 429 on the first attempt followed by a success.\<close>

theorem get_429_waits_then_retries_witness:
  "get script_env ''tok'' (JStr ''me'') [] 3
     \<lparr>world = [HTTPError 429 ''Too Many Requests'', Ok (JObj [(''id'', JStr ''u1'')])],
      trace = []\<rparr>
   = (Return (JObj [(''id'', JStr ''u1'')]),
      \<lparr>world = [],
       trace = [Request ''https://api.spotify.com/v1/me'' ''Bearer tok'',
                Log RateLimitedWait, Sleep 10, Log (Retrying 2 3),
                Request ''https://api.spotify.com/v1/me'' ''Bearer tok'']\<rparr>)"
proof -
  let ?body = "JObj [(''id'', JStr ''u1'')]"
  let ?st = "\<lparr>world = [HTTPError 429 ''Too Many Requests'', Ok ?body], trace = []\<rparr>"
  have h1: "retried script_env ''tok'' (build_url ''me'' []) 3 0 0 ?st = Some ?st"
    by simp
  have h2: "int 0 < 3" by simp
  have h3: "urlopen script_env (build_url ''me'' []) (''Bearer '' @ ''tok'') (world ?st)
      = (HTTPError 429 ''Too Many Requests'', [Ok ?body])"
    by (simp add: script_env_def)
  have h4: "int 0 + 1 < 3
      \<and> urlopen script_env (build_url ''me'' []) (''Bearer '' @ ''tok'')
          (sleep script_env (10 * (int 0 + 1)) [Ok ?body]) = (Ok ?body, [])"
    by (simp add: script_env_def)
  from get_429_waits_then_retries [OF h1 h2 h3, of ?body "[]"] h4 show ?thesis
    by (auto simp: build_url_me)
qed

text \<open>Claim C4 as amended, at a network error on the second attempt of three.\<close>

theorem get_backoff_before_retry_witness:
  "\<exists>st1. retried script_env ''tok'' ''https://api.spotify.com/v1/me'' 3 0 2
       \<lparr>world = [HTTPError 503 ''Service Unavailable'', URLError ''timed out'', Ok JNull],
        trace = []\<rparr> = Some st1
     \<and> trace st1 =
         [Request ''https://api.spotify.com/v1/me'' ''Bearer tok'',
          Log (HttpErrorFor 503 ''Service Unavailable'' ''https://api.spotify.com/v1/me''),
          Sleep 2, Log (Retrying 2 3),
          Request ''https://api.spotify.com/v1/me'' ''Bearer tok'',
          Log (NetworkErrorFor ''timed out'' ''https://api.spotify.com/v1/me''),
          Sleep 4, Log (Retrying 3 3)]"
proof -
  let ?url = "''https://api.spotify.com/v1/me''"
  let ?st = "\<lparr>world = [HTTPError 503 ''Service Unavailable'', URLError ''timed out'', Ok JNull],
      trace = []\<rparr>"
  let ?st1 = "\<lparr>world = [URLError ''timed out'', Ok JNull],
       trace = [Request ?url ''Bearer tok'',
                Log (HttpErrorFor 503 ''Service Unavailable'' ?url),
                Sleep 2, Log (Retrying 2 3)]\<rparr>"
  have h1: "retried script_env ''tok'' (build_url ''me'' []) 3 0 1 ?st = Some ?st1"
    by (simp add: build_url_me script_step)
  have h2: "int 1 + 1 < 3" by simp
  have h3: "urlopen script_env (build_url ''me'' []) (''Bearer '' @ ''tok'') (world ?st1)
      = (URLError ''timed out'', [Ok JNull])"
    by (simp add: script_env_def)
  have h4: "error_line (URLError ''timed out'') (build_url ''me'' [])
      = Some (NetworkErrorFor ''timed out'' (build_url ''me'' []))"
    by simp
  have two: "Suc 1 = 2" by simp
  from get_backoff_before_retry [OF h1 h2 h3 h4] show ?thesis
    unfolding two build_url_me by auto
qed

text \<open>
  Claim C4 as it was stated fails for a body that does not decode: on the second
  attempt of three the sleep is 2 seconds, not \<open>2 * 2\<close>.
\<close>

theorem json_backoff_is_constant:
  "get script_env ''tok'' (JStr ''me'') [] 3
     \<lparr>world = [JSONDecodeError ''Expecting value'', JSONDecodeError ''Expecting value'', Ok JNull],
      trace = []\<rparr>
   = (Return JNull,
      \<lparr>world = [],
       trace = [Request ''https://api.spotify.com/v1/me'' ''Bearer tok'',
                Log (InvalidJsonFrom ''https://api.spotify.com/v1/me'' ''Expecting value''),
                Sleep 2, Log (Retrying 2 3),
                Request ''https://api.spotify.com/v1/me'' ''Bearer tok'',
                Log (InvalidJsonFrom ''https://api.spotify.com/v1/me'' ''Expecting value''),
                Sleep 2, Log (Retrying 3 3),
                Request ''https://api.spotify.com/v1/me'' ''Bearer tok'']\<rparr>)"
  by (simp add: get_def build_url_me attempts.simps script_step)

text \<open>Claim C8 at three failures in a row, the last one a network error.\<close>

theorem get_exhausted_is_fatal_witness:
  "\<exists>st'. get script_env ''tok'' (JStr ''me'') [] 3
       \<lparr>world = [HTTPError 500 ''Server Error'', HTTPError 429 ''Too Many Requests'',
                 URLError ''timed out''],
        trace = []\<rparr> = (Exit 1, st')
     \<and> trace st' =
         [Request ''https://api.spotify.com/v1/me'' ''Bearer tok'',
          Log (HttpErrorFor 500 ''Server Error'' ''https://api.spotify.com/v1/me''),
          Sleep 2, Log (Retrying 2 3),
          Request ''https://api.spotify.com/v1/me'' ''Bearer tok'',
          Log RateLimitedWait, Sleep 20, Log (Retrying 3 3),
          Request ''https://api.spotify.com/v1/me'' ''Bearer tok'',
          Log (NetworkErrorFor ''timed out'' ''https://api.spotify.com/v1/me''),
          Log (FailedToLoad 3 ''https://api.spotify.com/v1/me'')]"
proof -
  let ?url = "''https://api.spotify.com/v1/me''"
  let ?st = "\<lparr>world = [HTTPError 500 ''Server Error'', HTTPError 429 ''Too Many Requests'',
               URLError ''timed out''], trace = []\<rparr>"
  let ?st2 = "\<lparr>world = [URLError ''timed out''],
       trace = [Request ?url ''Bearer tok'',
                Log (HttpErrorFor 500 ''Server Error'' ?url),
                Sleep 2, Log (Retrying 2 3),
                Request ?url ''Bearer tok'',
                Log RateLimitedWait, Sleep 20, Log (Retrying 3 3)]\<rparr>"
  have h1: "retried script_env ''tok'' (build_url ''me'' []) 3 0 2 ?st = Some ?st2"
    by (simp add: build_url_me script_step numeral_2_eq_2)
  have h2: "int 2 + 1 = 3" by simp
  have h3: "urlopen script_env (build_url ''me'' []) (''Bearer '' @ ''tok'') (world ?st2)
      = (URLError ''timed out'', [])"
    by (simp add: script_env_def)
  have h4: "error_line (URLError ''timed out'') (build_url ''me'' [])
      = Some (NetworkErrorFor ''timed out'' (build_url ''me'' []))"
    by simp
  from get_exhausted_is_fatal [OF h1 h2 h3 h4] show ?thesis
    unfolding build_url_me by auto
qed

section \<open>The capture server\<close>

lemma search_access_token_None:
  "(search_access_token path = None) = (\<not> sublist ''access_token='' path)"
proof (induction path)
  case Nil
  show ?case by simp
next
  case (Cons c cs)
  show ?case
  proof (cases "prefix ''access_token='' (c # cs)")
    case True
    then have "search_access_token (c # cs) \<noteq> None"
      by (simp only: search_access_token.simps if_True option.distinct not_False_eq_True)
    moreover from True have "sublist ''access_token='' (c # cs)"
      by (simp only: sublist_Cons_right simp_thms)
    ultimately show ?thesis by (simp only: simp_thms)
  next
    case False
    then have "search_access_token (c # cs) = search_access_token cs"
      by (simp only: search_access_token.simps if_False)
    moreover from False have "sublist ''access_token='' (c # cs) = sublist ''access_token='' cs"
      by (simp only: sublist_Cons_right simp_thms)
    ultimately show ?thesis using Cons by (simp only:)
  qed
qed









text \<open>
  Claim C10. For the path \<^verbatim>\<open>/token?access_token=\<close> the pattern matches with an empty
  group: the handler raises \<^verbatim>\<open>_Authorization\<close> with the empty token, and \<^verbatim>\<open>authorize\<close>
  ends with it. For any path, \<^verbatim>\<open>send_error(400)\<close> is reached exactly when the path starts
  with \<^verbatim>\<open>/token?\<close> and does not contain \<^verbatim>\<open>access_token=\<close> anywhere.
\<close>

theorem empty_token_is_captured:
  "do_GET ''/token?access_token='' =
     ([SendResponse 200, SendHeader ''Content-Type'' ''text/html'', EndHeaders,
       WriteBody thanks_page], True, RaisedAuthorization [])
   \<and> fst (authorize [GET ''/token?access_token='']) = Authorized []
   \<and> (SendError 400 \<in> set (fst (do_GET path)))
       = (prefix ''/token?'' path \<and> \<not> sublist ''access_token='' path)"
proof -
  have a: "do_GET ''/token?access_token='' =
     ([SendResponse 200, SendHeader ''Content-Type'' ''text/html'', EndHeaders,
       WriteBody thanks_page], True, RaisedAuthorization [])"
    by (simp add: do_GET_def)
  have b: "fst (authorize [GET ''/token?access_token='']) = Authorized []"
    by (simp add: authorize_def a)
  have r: "prefix ''/redirect'' path \<Longrightarrow> \<not> prefix ''/token?'' path"
    by (auto simp: prefix_def)
  have c: "(SendError 400 \<in> set (fst (do_GET path)))
       = (prefix ''/token?'' path \<and> \<not> sublist ''access_token='' path)"
    using r search_access_token_None [of path]
    by (auto simp: do_GET_def Let_def split: option.splits)
  from a b c show ?thesis by blast
qed

text \<open>
  Claim C6. For a \<^verbatim>\<open>GET\<close> on a path that starts with \<^verbatim>\<open>/token?\<close> and has no
  \<^verbatim>\<open>access_token=\<close> in it, the handler returns and the server goes on to the next
  request, as the claim says. But the handler has sent the whole 200 response with the
  ``Thanks'' page before it calls \<^verbatim>\<open>send_error(400)\<close>: the status the client reads is
  200, and the 400 follows as part of that response's body.
\<close>

theorem token_route_answers_200_before_400:
  assumes "prefix ''/token?'' path" and "\<not> sublist ''access_token='' path"
  shows "do_GET path =
      ([SendResponse 200, SendHeader ''Content-Type'' ''text/html'', EndHeaders,
        WriteBody thanks_page, SendError 400], False, Returned)
    \<and> status_on_wire (fst (do_GET path)) = Some 200
    \<and> serve (GET path # rest) l = serve rest (l\<lparr>sent := sent l @ [fst (do_GET path)]\<rparr>)"
proof -
  from assms(1) have nr: "\<not> prefix ''/redirect'' path"
    by (auto simp: prefix_def)
  from assms(2) have "search_access_token path = None"
    by (simp add: search_access_token_None)
  with assms(1) nr have d: "do_GET path =
      ([SendResponse 200, SendHeader ''Content-Type'' ''text/html'', EndHeaders,
        WriteBody thanks_page, SendError 400], False, Returned)"
    by (simp add: do_GET_def)
  then show ?thesis by simp
qed

text \<open>Claim C6 at the path \<^verbatim>\<open>/token?error=access_denied\<close>.\<close>

theorem token_route_answers_200_before_400_witness:
  "do_GET ''/token?error=access_denied'' =
     ([SendResponse 200, SendHeader ''Content-Type'' ''text/html'', EndHeaders,
       WriteBody thanks_page, SendError 400], False, Returned)
   \<and> status_on_wire (fst (do_GET ''/token?error=access_denied'')) = Some 200
   \<and> fst (authorize [GET ''/token?error=access_denied'']) = Waiting"
proof -
  have h1: "prefix ''/token?'' ''/token?error=access_denied''" by simp
  have h2: "\<not> sublist ''access_token='' ''/token?error=access_denied''"
    by (simp add: sublist_Cons_right)
  from token_route_answers_200_before_400 [OF h1 h2,
      of "[]" "\<lparr>socket_open = True, sent = [], token_logged = 0\<rparr>"]
  show ?thesis
    by (simp add: authorize_def)
qed

text \<open>The two pages have the lengths of the byte strings of lines 159 and 166.\<close>

lemma redirect_page_length: "length redirect_page = 69 \<and> length thanks_page = 62"
  by (simp add: redirect_page_def thanks_page_def)

section \<open>The text writer\<close>

lemma thn_Inr: "(thn m f = Inr y) = (\<exists>x. m = Inr x \<and> f x = Inr y)"
  by (cases m) auto

lemma seq_lines: "set (fst (seq a b)) \<subseteq> set (fst a) \<union> set (fst b)"
  by (cases a; cases b; cases "snd a") auto

lemma plain_seq:
  "\<forall>l \<in> set (fst a). \<not> section_line l \<Longrightarrow> \<forall>l \<in> set (fst b). \<not> section_line l
     \<Longrightarrow> \<forall>l \<in> set (fst (seq a b)). \<not> section_line l"
  using seq_lines [of a b] by auto

lemma track_row_line: "track_row track = Inr (Some row) \<Longrightarrow> \<not> section_line row"
  by (auto simp: track_row_def thn_Inr split: if_splits)

lemma write_tracks_lines: "\<forall>l \<in> set (fst (write_tracks tracks)). \<not> section_line l"
proof (induction tracks)
  case Nil
  show ?case by simp
next
  case (Cons track rest)
  show ?case
  proof (cases "track_row track")
    case (Inl e)
    then show ?thesis by simp
  next
    case (Inr r)
    show ?thesis
    proof (cases r)
      case None
      with Inr Cons show ?thesis by simp
    next
      case (Some row)
      from Inr Some have "\<not> section_line row" by (simp add: track_row_line)
      then have "\<forall>l \<in> set (fst (([row], None) :: written)). \<not> section_line l" by simp
      from plain_seq [OF this Cons] Inr Some show ?thesis by simp
    qed
  qed
qed

lemma write_playlist_lines: "\<forall>l \<in> set (fst (write_playlist playlist)). \<not> section_line l"
proof -
  have blank: "\<forall>l \<in> set (fst (([BlankLine], None) :: written)). \<not> section_line l" by simp
  have inner: "\<forall>l \<in> set (fst (case thn (subscript playlist ''tracks'') iter of
              Inl e \<Rightarrow> ([], Some e)
            | Inr tracks \<Rightarrow> seq (write_tracks tracks) ([BlankLine], None))). \<not> section_line l"
  proof (cases "thn (subscript playlist ''tracks'') iter")
    case (Inl e)
    then show ?thesis by simp
  next
    case (Inr tracks)
    from plain_seq [OF write_tracks_lines blank, of tracks] Inr show ?thesis by simp
  qed
  show ?thesis
  proof (cases "thn (subscript playlist ''name'') as_str")
    case (Inl e)
    then show ?thesis by (simp add: write_playlist_def)
  next
    case (Inr name)
    have "\<forall>l \<in> set (fst (([PlaylistName name], None) :: written)). \<not> section_line l" by simp
    from plain_seq [OF this inner] Inr show ?thesis by (simp add: write_playlist_def)
  qed
qed

lemma write_playlists_lines: "\<forall>l \<in> set (fst (write_playlists playlists)). \<not> section_line l"
proof (induction playlists)
  case Nil
  show ?case by simp
next
  case (Cons p ps)
  from plain_seq [OF write_playlist_lines Cons] show ?case by simp
qed

text \<open>
  Claim C9. In the text format the lines of the sections ``Liked Albums'',
  ``Top Artists'' and ``Top Tracks'' are written only in the branch taken when
  \<^verbatim>\<open>len(liked_albums) > 0\<close>: if any of them is in the output, there are liked albums.
  With no liked album the output is the playlists' part and nothing else, whatever
  the top artists and top tracks are, and no exception tells of the omission.
\<close>

theorem top_sections_need_liked_albums:
  assumes "len liked_albums = Inr 0"
  shows "write_txt playlists liked_albums top_artists top_tracks time_range
      = seq ([PlaylistsHeader], None) (write_playlists playlists)
    \<and> \<not> list_ex section_line
          (fst (write_txt playlists liked_albums top_artists top_tracks time_range))
    \<and> (list_ex section_line (fst (write_txt playlists albums top_artists top_tracks time_range))
        \<longrightarrow> (\<exists>n. len albums = Inr n \<and> n > 0))"
proof -
  have plain: "\<forall>l \<in> set (fst (seq ([PlaylistsHeader], None) (seq (write_playlists playlists) w))).
      \<not> section_line l"
    if "\<forall>l \<in> set (fst w). \<not> section_line l" for w :: written
  proof -
    have h: "\<forall>l \<in> set (fst (([PlaylistsHeader], None) :: written)). \<not> section_line l" by simp
    from plain_seq [OF h plain_seq [OF write_playlists_lines that]] show ?thesis .
  qed
  have tail: "seq w ([], None) = w" for w :: written
    by (cases w; cases "snd w") auto
  have a: "write_txt playlists liked_albums top_artists top_tracks time_range
      = seq ([PlaylistsHeader], None) (write_playlists playlists)"
    using assms by (simp add: write_txt_def tail)
  have b: "\<not> list_ex section_line
      (fst (write_txt playlists liked_albums top_artists top_tracks time_range))"
    using plain [of "([], None)"] assms by (simp add: write_txt_def list_ex_iff)
  have c: "\<exists>n. len albums = Inr n \<and> n > 0"
    if ex: "list_ex section_line (fst (write_txt playlists albums top_artists top_tracks time_range))"
  proof (cases "len albums")
    case (Inl e)
    with plain [of "([], Some e)"] ex show ?thesis
      by (simp add: write_txt_def list_ex_iff)
  next
    case (Inr n)
    show ?thesis
    proof (cases "n > 0")
      case True
      with Inr show ?thesis by simp
    next
      case False
      with plain [of "([], None)"] ex Inr show ?thesis
        by (simp add: write_txt_def list_ex_iff)
    qed
  qed
  from a b c show ?thesis by blast
qed

text \<open>
  Claim C9 at no liked album, one top artist and one top track; and a run whose output
  has the header ``Liked Albums'' has a liked album.
\<close>

theorem top_sections_need_liked_albums_witness:
  "write_txt [JObj [(''name'', JStr ''Liked Songs''), (''tracks'', JArr [])]] (JArr [])
     (JArr [JObj [(''name'', JStr ''Nina Simone''), (''genres'', JArr [JStr ''jazz'', JStr ''soul'']),
                  (''followers'', JObj [(''total'', JNum 3000000)]),
                  (''uri'', JStr ''spotify:artist:7G1GBhoKtEPnP86X2PvEYO'')]])
     (JArr [JObj [(''name'', JStr ''Sinnerman''),
                  (''artists'', JArr [JObj [(''name'', JStr ''Nina Simone'')]]),
                  (''album'', JObj [(''name'', JStr ''Pastel Blues''), (''release_date'', JStr ''1965'')]),
                  (''uri'', JStr ''spotify:track:0bbfvrR4GqnmEvOrBCLAYl'')]])
     ''long_term''
   = ([PlaylistsHeader, PlaylistName ''Liked Songs'', BlankLine], None)
   \<and> (\<exists>n. len (JArr [JObj [(''album'', JNull)]]) = Inr n \<and> 0 < n)"
proof -
  have h: "len (JArr []) = Inr 0" by simp
  note t = top_sections_need_liked_albums [OF h]
  have s: "list_ex section_line (fst (write_txt [] (JArr [JObj [(''album'', JNull)]]) (JArr []) (JArr [])
      ''long_term''))"
    by (simp add: write_txt_def album_row_def write_top_def)
  from t [where albums = "JArr [JObj [(''album'', JNull)]]" and playlists = "[]"
      and top_artists = "JArr []" and top_tracks = "JArr []" and time_range = "''long_term''"] s
  have b: "\<exists>n. len (JArr [JObj [(''album'', JNull)]]) = Inr n \<and> 0 < n"
    by blast
  from t b show ?thesis
    by (simp add: write_playlist_def)
qed

text \<open>With one liked album, the same top artist is written.\<close>

lemma with_liked_albums_the_sections_are_written:
  "write_txt [] (JArr [JObj [(''album'', JObj [(''uri'', JStr ''spotify:album:1''), (''name'', JStr ''Pastel Blues''),
        (''artists'', JArr [JObj [(''name'', JStr ''Nina Simone'')]]), (''release_date'', JStr ''1965'')])]])
     (JArr [JObj [(''name'', JStr ''Nina Simone''), (''genres'', JArr [JStr ''jazz'', JStr ''soul'']),
                  (''followers'', JObj [(''total'', JNum 3000000)]),
                  (''uri'', JStr ''spotify:artist:7G1GBhoKtEPnP86X2PvEYO'')]])
     (JArr [])
     ''long_term''
   = ([PlaylistsHeader, LikedAlbumsHeader,
       AlbumRow (JStr ''Pastel Blues'') ''Nina Simone'' (JStr ''spotify:album:1'') (JStr ''1965''),
       TopArtistsHeader ''Long Term'',
       ArtistRow 1 (JStr ''Nina Simone'') ''jazz, soul'' (JNum 3000000)
         (JStr ''spotify:artist:7G1GBhoKtEPnP86X2PvEYO'')], None)"
  by (simp add: write_txt_def write_top_def album_row_def artist_row_def artist_names_def
      join_comma_def enumerate_from_1_def range_title_def ascii_lowercase_def ascii_uppercase_def
      upper_def lower_def)

section \<open>Walking the pages\<close>

lemma get_first_try:
  assumes "fst (urlopen env (build_url u params) (''Bearer '' @ auth) (world st)) = Ok r"
  shows "\<exists>st'. get env auth (JStr u) params 3 st = (Return r, st')
      \<and> trace st' = trace st @ [Request (build_url u params) (''Bearer '' @ auth)]"
proof -
  obtain w' where "urlopen env (build_url u params) (''Bearer '' @ auth) (world st) = (Ok r, w')"
    using assms by (cases "urlopen env (build_url u params) (''Bearer '' @ auth) (world st)") simp
  from one_attempt_Ok [OF this, of 3 0] show ?thesis
    by (simp add: get_def attempts_leave)
qed

lemma page_ok_items: "page_ok r \<Longrightarrow> subscript r ''items'' = Inr (JArr (items_of r))"
  by (auto simp: page_ok_def items_of_def split: sum.splits json.splits)

lemma page_ok_total: "page_ok r \<Longrightarrow> \<exists>t. subscript r ''total'' = Inr t"
  by (auto simp: page_ok_def split: sum.splits)

lemma progress_keeps_requests:
  assumes "page_ok response"
  shows "\<exists>t st1. progress env last_log_time response (JArr xs) st = (Inr t, st1)
      \<and> requests (trace st1) = requests (trace st)"
proof -
  from page_ok_total [OF assms] obtain t where "subscript response ''total'' = Inr t" ..
  then show ?thesis
    by (auto simp: progress_def read_time_def log_message_def Let_def requests_append
        split: prod.splits)
qed

lemma list_loop_walk:
  assumes "linked ((url, r) # rest)"
    and "\<forall>(u, p) \<in> set ((url, r) # rest).
           page_ok p \<and> (\<forall>w. fst (urlopen env u (''Bearer '' @ auth) w) = Ok p)"
  shows "\<exists>st'. list_loop env auth last_log_time r (JArr xs) st
        = Some (Return (JArr (xs @ concat (map (\<lambda>(u, p). items_of p) rest))), st')
      \<and> requests (trace st') = requests (trace st) @ map fst rest"
  using assms
proof (induction rest arbitrary: url r xs st last_log_time)
  case Nil
  from Nil.prems(1) obtain nxt where "subscript r ''next'' = Inr nxt" "\<not> truthy nxt"
    by (auto split: sum.splits)
  then show ?case
    by (subst list_loop.simps) simp
next
  case (Cons page rest)
  obtain url' r' where page: "page = (url', r')" by (cases page)
  from Cons.prems(1) page obtain n where
    nxt: "subscript r ''next'' = Inr (JStr n)" "n \<noteq> []" "url' = build_url n []"
    and link: "linked ((url', r') # rest)"
    by (auto split: sum.splits json.splits)
  from Cons.prems(2) page have ok: "page_ok r" "page_ok r'"
    and served: "\<forall>w. fst (urlopen env url' (''Bearer '' @ auth) w) = Ok r'"
    and rest: "\<forall>(u, p) \<in> set ((url', r') # rest).
           page_ok p \<and> (\<forall>w. fst (urlopen env u (''Bearer '' @ auth) w) = Ok p)"
    by auto
  from progress_keeps_requests [OF ok(1), of env last_log_time xs st] obtain t st1 where
    prog: "progress env last_log_time r (JArr xs) st = (Inr t, st1)"
    and req1: "requests (trace st1) = requests (trace st)"
    by blast
  from served nxt(3) have "fst (urlopen env (build_url n []) (''Bearer '' @ auth) (world st1)) = Ok r'"
    by simp
  from get_first_try [OF this] obtain st2 where
    g: "get env auth (JStr n) [] 3 st1 = (Return r', st2)"
    and tr2: "trace st2 = trace st1 @ [Request (build_url n []) (''Bearer '' @ auth)]"
    by blast
  from Cons.IH [OF link rest, of t "xs @ items_of r'" st2] obtain st' where
    loop: "list_loop env auth t r' (JArr (xs @ items_of r')) st2
        = Some (Return (JArr ((xs @ items_of r') @ concat (map (\<lambda>(u, p). items_of p) rest))), st')"
    and req': "requests (trace st') = requests (trace st2) @ map fst rest"
    by blast
  have "list_loop env auth last_log_time r (JArr xs) st
      = list_loop env auth t r' (JArr (xs @ items_of r')) st2"
    by (subst list_loop.simps) (simp add: nxt prog g page_ok_items [OF ok(2)])
  with loop req' tr2 req1 nxt(3) page show ?case
    by (simp add: requests_append)
qed

text \<open>
  Claim C1. Take any resource whose pages are linked and served at their URLs, the
  first of them at the URL that \<^verbatim>\<open>list(url, params)\<close> builds. Then \<^verbatim>\<open>list\<close> returns, and
  what it returns is the pages' items concatenated in the order of the pages, however
  the items are split into pages. The requests it sends are exactly the pages' URLs in
  order: each page after the first is asked for at the \<^verbatim>\<open>next\<close> of the page before, with
  no parameter added, and nothing is requested after the page whose \<^verbatim>\<open>next\<close> is null; a
  resource of one page costs one request.
\<close>

theorem list_returns_every_item_in_order:
  assumes "linked walk"
    and "\<forall>(url, r) \<in> set walk.
           page_ok r \<and> (\<forall>w. fst (urlopen env url (''Bearer '' @ auth) w) = Ok r)"
    and "fst (hd walk) = build_url u params"
  shows "\<exists>st'. list_paged env auth (JStr u) params st
        = Some (Return (JArr (concat (map (\<lambda>(url, r). items_of r) walk))), st')
      \<and> requests (trace st') = requests (trace st) @ map fst walk"
proof -
  from assms(1) obtain url r rest where walk: "walk = (url, r) # rest"
    by (cases walk) auto
  from assms(3) walk have url: "url = build_url u params" by simp
  from assms(2) walk have ok: "page_ok r"
    and served: "\<forall>w. fst (urlopen env url (''Bearer '' @ auth) w) = Ok r"
    by auto
  obtain t st0 where rt: "read_time env st = (t, st0)" by (cases "read_time env st")
  then have tr0: "trace st0 = trace st" by (auto simp: read_time_def Let_def)
  from served url have "fst (urlopen env (build_url u params) (''Bearer '' @ auth) (world st0)) = Ok r"
    by simp
  from get_first_try [OF this] obtain st1 where
    g: "get env auth (JStr u) params 3 st0 = (Return r, st1)"
    and tr1: "trace st1 = trace st0 @ [Request (build_url u params) (''Bearer '' @ auth)]"
    by blast
  from list_loop_walk [OF assms(1,2) [unfolded walk], of t "items_of r" st1] obtain st' where
    loop: "list_loop env auth t r (JArr (items_of r)) st1
        = Some (Return (JArr (items_of r @ concat (map (\<lambda>(u, p). items_of p) rest))), st')"
    and req': "requests (trace st') = requests (trace st1) @ map fst rest"
    by blast
  have "list_paged env auth (JStr u) params st = list_loop env auth t r (JArr (items_of r)) st1"
    by (simp add: list_paged_def rt g page_ok_items [OF ok])
  with loop req' tr1 tr0 walk url show ?thesis
    by (simp add: requests_append)
qed

text \<open>Claim C1 on five items in three pages, with a clock that makes the walk report progress.\<close>

lemma build_url_liked:
  "build_url ''me/tracks'' [(''limit'', ''2'')] = ''https://api.spotify.com/v1/me/tracks?limit=2''"
  by (simp add: build_url_def api_base_def urlencode_def quote_plus_def always_safe_def)

lemma build_url_absolute:
  "build_url ''https://api.spotify.com/v1/me/tracks?offset=2&limit=2'' []
     = ''https://api.spotify.com/v1/me/tracks?offset=2&limit=2''"
  "build_url ''https://api.spotify.com/v1/me/tracks?offset=4&limit=2'' []
     = ''https://api.spotify.com/v1/me/tracks?offset=4&limit=2''"
  by (simp_all add: build_url_def api_base_def)

theorem list_returns_every_item_in_order_witness:
  "\<exists>st'. list_paged (static_env liked_tracks_server) ''tok'' (JStr ''me/tracks'') [(''limit'', ''2'')]
       \<lparr>world = 0, trace = []\<rparr>
     = Some (Return (JArr [JStr ''a'', JStr ''b'', JStr ''c'', JStr ''d'', JStr ''e'']), st')
   \<and> requests (trace st') =
       [''https://api.spotify.com/v1/me/tracks?limit=2'',
        ''https://api.spotify.com/v1/me/tracks?offset=2&limit=2'',
        ''https://api.spotify.com/v1/me/tracks?offset=4&limit=2'']"
proof -
  let ?p1 = "JObj [(''items'', JArr [JStr ''a'', JStr ''b'']),
                  (''next'', JStr ''https://api.spotify.com/v1/me/tracks?offset=2&limit=2''),
                  (''total'', JNum 5)]"
  let ?p2 = "JObj [(''items'', JArr [JStr ''c'', JStr ''d'']),
                  (''next'', JStr ''https://api.spotify.com/v1/me/tracks?offset=4&limit=2''),
                  (''total'', JNum 5)]"
  let ?p3 = "JObj [(''items'', JArr [JStr ''e'']), (''next'', JNull), (''total'', JNum 5)]"
  let ?walk = "[(''https://api.spotify.com/v1/me/tracks?limit=2'', ?p1),
                (''https://api.spotify.com/v1/me/tracks?offset=2&limit=2'', ?p2),
                (''https://api.spotify.com/v1/me/tracks?offset=4&limit=2'', ?p3)]"
  have h1: "linked ?walk"
    by (simp add: build_url_absolute)
  have h2: "\<forall>(url, r) \<in> set ?walk. page_ok r
      \<and> (\<forall>w. fst (urlopen (static_env liked_tracks_server) url (''Bearer '' @ ''tok'') w) = Ok r)"
    by (simp add: page_ok_def static_env_def liked_tracks_server_def)
  have h3: "fst (hd ?walk) = build_url ''me/tracks'' [(''limit'', ''2'')]"
    by (simp add: build_url_liked)
  from list_returns_every_item_in_order [OF h1 h2 h3, of "\<lparr>world = 0, trace = []\<rparr>"]
  show ?thesis
    by (simp add: items_of_def)
qed

lemma progress_line_in_the_walk:
  "list_paged (static_env liked_tracks_server) ''tok'' (JStr ''me/tracks'') [(''limit'', ''2'')]
       \<lparr>world = 0, trace = []\<rparr>
     = Some (Return (JArr [JStr ''a'', JStr ''b'', JStr ''c'', JStr ''d'', JStr ''e'']),
         \<lparr>world = 5,
          trace = [Request ''https://api.spotify.com/v1/me/tracks?limit=2'' ''Bearer tok'',
                   Log (LoadedItems 2 (JNum 5)),
                   Request ''https://api.spotify.com/v1/me/tracks?offset=2&limit=2'' ''Bearer tok'',
                   Log (LoadedItems 4 (JNum 5)),
                   Request ''https://api.spotify.com/v1/me/tracks?offset=4&limit=2'' ''Bearer tok'']\<rparr>)"
  by (simp add: list_paged_def list_loop.simps progress_def read_time_def get_def
      attempts.simps one_attempt_def send_request_def log_message_def static_env_def
      liked_tracks_server_def build_url_liked build_url_absolute)

section \<open>The batch of playlists\<close>











end
